theory Spec2Isabelle
  imports Main "HOL-Library.Sublist" "HOL-Library.AList"
begin

section \<open>Python values and strings\<close>

text \<open>
  The bridge is a Python program. Its strings are modelled as \<^typ>\<open>string\<close>, every
  \<^typ>\<open>char\<close> standing for the code point of the same number (the code points 0 to 255).
  The values that \<open>json.loads\<close> produces, and the dictionaries and lists the program
  builds itself, are values of the type \<open>json\<close>. A dictionary is an association list: it
  keeps the insertion order, as a Python \<open>dict\<close> does. The program never looks at a number
  beyond its type and its truth value, so numbers are integers here.
\<close>

datatype json =
    JNull
  | JBool bool
  | JNum int
  | JStr string
  | JArr "json list"
  | JObj "(string \<times> json) list"

text \<open>The exceptions the program can meet on a value of the wrong shape.\<close>

datatype py_error = AttributeError | TypeError | KeyError | IndexError

text \<open>Truth value of a Python object, as \<open>if x\<close>, \<open>x or y\<close> and \<open>x and y\<close> take it.\<close>

fun truthy :: "json \<Rightarrow> bool" where
  "truthy JNull = False"
| "truthy (JBool b) = b"
| "truthy (JNum n) = (n \<noteq> 0)"
| "truthy (JStr s) = (s \<noteq> [])"
| "truthy (JArr xs) = (xs \<noteq> [])"
| "truthy (JObj kvs) = (kvs \<noteq> [])"

text \<open>\<open>x.get(k, d)\<close>: only a dictionary has the method.\<close>

fun py_get :: "json \<Rightarrow> string \<Rightarrow> json \<Rightarrow> py_error + json" where
  "py_get (JObj kvs) k d = Inr (case map_of kvs k of None \<Rightarrow> d | Some v \<Rightarrow> v)"
| "py_get _ k d = Inl AttributeError"

text \<open>\<open>x[0]\<close>. The keys of a decoded dictionary are strings, so the key \<open>0\<close> is never there.\<close>

fun py_item0 :: "json \<Rightarrow> py_error + json" where
  "py_item0 (JArr []) = Inl IndexError"
| "py_item0 (JArr (v # vs)) = Inr v"
| "py_item0 (JStr []) = Inl IndexError"
| "py_item0 (JStr (c # cs)) = Inr (JStr [c])"
| "py_item0 (JObj kvs) = Inl KeyError"
| "py_item0 _ = Inl TypeError"

text \<open>\<open>pat in x\<close> for a string \<open>pat\<close>: substring of a string, element of a list, key of a
  dictionary; any other right operand raises.\<close>

fun py_in :: "string \<Rightarrow> json \<Rightarrow> py_error + bool" where
  "py_in pat (JStr s) = Inr (sublist pat s)"
| "py_in pat (JArr xs) = Inr (JStr pat \<in> set xs)"
| "py_in pat (JObj kvs) = Inr (pat \<in> fst ` set kvs)"
| "py_in pat _ = Inl TypeError"

text \<open>Code points below 256 for which \<open>str.isspace\<close> holds; the regular expression class
  \<open>\s\<close> and \<open>str.strip\<close> use the same set.\<close>

definition is_space :: "char \<Rightarrow> bool" where
  "is_space c = (of_char c \<in> {9, 10, 11, 12, 13, 28, 29, 30, 31, 32, 133, 160 :: nat})"

text \<open>Code points below 256 in the class \<open>\w\<close> of a Python 3 string pattern: the
  alphanumeric ones and the underscore.\<close>

definition is_word :: "char \<Rightarrow> bool" where
  "is_word c = (let n = (of_char c :: nat) in
     (48 \<le> n \<and> n \<le> 57) \<or> (65 \<le> n \<and> n \<le> 90) \<or> n = 95 \<or> (97 \<le> n \<and> n \<le> 122) \<or>
     n = 170 \<or> n = 178 \<or> n = 179 \<or> n = 181 \<or> n = 185 \<or> n = 186 \<or>
     (188 \<le> n \<and> n \<le> 190) \<or> (192 \<le> n \<and> n \<le> 214) \<or> (216 \<le> n \<and> n \<le> 246) \<or>
     (248 \<le> n \<and> n \<le> 255))"

text \<open>\<open>s.strip()\<close>\<close>

definition strip :: "string \<Rightarrow> string" where
  "strip s = rev (dropWhile is_space (rev (dropWhile is_space s)))"

text \<open>\<open>s[a:b]\<close> for indices that are not negative.\<close>

definition slice :: "string \<Rightarrow> nat \<Rightarrow> nat \<Rightarrow> string" where
  "slice s a b = take (b - a) (drop a s)"

text \<open>\<open>s.replace(old, new)\<close>: the occurrences of \<open>old\<close> are replaced from left to right,
  without overlap; with an empty \<open>old\<close>, \<open>new\<close> is put before every character and at the end.\<close>

function replace :: "string \<Rightarrow> string \<Rightarrow> string \<Rightarrow> string" where
  "replace old new s =
     (if old = [] then new @ concat (map (\<lambda>c. c # new) s)
      else if s = [] then []
      else if prefix old s then new @ replace old new (drop (length old) s)
      else hd s # replace old new (tl s))"
  by pat_completeness auto
termination
  by (relation "measure (\<lambda>(old, new, s). length s)") auto

declare replace.simps [simp del]

section \<open>The Harmony parser\<close>

definition CHANNEL_MARK :: string where
  "CHANNEL_MARK = ''<|channel|>''"

definition MESSAGE_MARK :: string where
  "MESSAGE_MARK = ''<|message|>''"

definition CONSTRAIN_MARK :: string where
  "CONSTRAIN_MARK = ''<|constrain|>''"

definition START_MARK :: string where
  "START_MARK = ''<|start|>''"

text \<open>
  \<open>has_harmony(text)\<close>. The streaming transformer calls it on whatever value the field
  \<open>content\<close> of a delta holds, so the argument is a value; \<open>or\<close> stops at the first test
  that holds, and a test that raises ends the call.
\<close>

definition has_harmony :: "json \<Rightarrow> py_error + bool" where
  "has_harmony text =
     (case py_in CHANNEL_MARK text of Inl e \<Rightarrow> Inl e
      | Inr True \<Rightarrow> Inr True
      | Inr False \<Rightarrow>
         (case py_in MESSAGE_MARK text of Inl e \<Rightarrow> Inl e
          | Inr True \<Rightarrow> Inr True
          | Inr False \<Rightarrow> py_in START_MARK text))"

text \<open>
  One match of \<open>CHANNEL_PATTERN\<close>: the four named groups; a group that took no part in the
  match is \<open>None\<close>.
\<close>

record segment =
  seg_channel :: string
  seg_recipient :: "string option"
  seg_constrain :: "string option"
  seg_content :: string

text \<open>
  The optional group \<open>(?:\s+to=(?P<recipient>[^<\s]+))?\<close> at the head of \<open>s\<close>: the
  recipient and the rest of the input, or \<open>None\<close> when the group does not match there.
  What follows \<open>\s+\<close> is no white space and what follows the recipient is white space or
  \<open><\<close>, so each greedy repetition can only stop where its run of characters stops.
\<close>

definition match_recipient :: "string \<Rightarrow> (string \<times> string) option" where
  "match_recipient s =
     (let ws = takeWhile is_space s; r = dropWhile is_space s in
      if ws \<noteq> [] \<and> prefix ''to='' r then
        (let rc = takeWhile (\<lambda>c. c \<noteq> CHR ''<'' \<and> \<not> is_space c) (drop 3 r);
             t = dropWhile (\<lambda>c. c \<noteq> CHR ''<'' \<and> \<not> is_space c) (drop 3 r) in
         if rc \<noteq> [] then Some (rc, t) else None)
      else None)"

text \<open>The optional group \<open>(?:\s*<\|constrain\|>(?P<constrain>\w+))?\<close>, in the same way.\<close>

definition match_constrain :: "string \<Rightarrow> (string \<times> string) option" where
  "match_constrain s =
     (let r = dropWhile is_space s in
      if prefix CONSTRAIN_MARK r then
        (let c = takeWhile is_word (drop 13 r); t = dropWhile is_word (drop 13 r) in
         if c \<noteq> [] then Some (c, t) else None)
      else None)"

text \<open>
  \<open>(?P<content>.*?)(?=(?:<\|channel\|>|\Z))\<close> with \<open>re.DOTALL\<close>: the lazy repetition takes
  characters until the input is at a channel marker or at its end.
\<close>

fun until_channel :: "string \<Rightarrow> string \<times> string" where
  "until_channel [] = ([], [])"
| "until_channel (c # cs) =
     (if prefix CHANNEL_MARK (c # cs) then ([], c # cs)
      else (let (a, r) = until_channel cs in (c # a, r)))"

text \<open>
  A match of \<open>CHANNEL_PATTERN\<close> that starts at the head of \<open>s\<close>: the groups and the input
  after the match. The channel is the whole run of word characters after the marker,
  since what follows it in the pattern starts with white space or \<open><\<close>. An optional
  group that matches is taken: when the pattern fails after it, it fails without it as
  well, since the input there starts with the white space or the marker the group has
  read. So the backtracking search of \<open>re\<close> has one way to match at a position, or none.
\<close>

definition match_here :: "string \<Rightarrow> (segment \<times> string) option" where
  "match_here s =
     (if \<not> prefix CHANNEL_MARK s then None
      else
        (let s1 = drop 11 s; ch = takeWhile is_word s1; s2 = dropWhile is_word s1 in
         if ch = [] then None
         else
           (let (rcp, s3) = (case match_recipient s2 of
                               Some (r, t) \<Rightarrow> (Some r, t) | None \<Rightarrow> (None, s2));
                (con, s4) = (case match_constrain s3 of
                               Some (c, t) \<Rightarrow> (Some c, t) | None \<Rightarrow> (None, s3)) in
            if \<not> prefix MESSAGE_MARK s4 then None
            else
              (let (content, rest) = until_channel (drop 11 s4) in
               Some (\<lparr>seg_channel = ch, seg_recipient = rcp, seg_constrain = con,
                      seg_content = content\<rparr>, rest)))))"

lemma until_channel_length:
  "length (snd (until_channel s)) \<le> length s"
  by (induction s) (auto split: prod.splits)

lemma match_recipient_length:
  assumes "match_recipient s = Some (r, t)"
  shows "length t \<le> length s"
proof -
  let ?P = "\<lambda>c. c \<noteq> CHR ''<'' \<and> \<not> is_space c"
  from assms have t: "t = dropWhile ?P (drop 3 (dropWhile is_space s))"
    by (auto simp: match_recipient_def Let_def split: if_splits)
  have "length t \<le> length (drop 3 (dropWhile is_space s))"
    unfolding t by (rule length_dropWhile_le)
  also have "\<dots> \<le> length (dropWhile is_space s)" by simp
  also have "\<dots> \<le> length s" by (rule length_dropWhile_le)
  finally show ?thesis .
qed

lemma match_constrain_length:
  assumes "match_constrain s = Some (c, t)"
  shows "length t \<le> length s"
proof -
  from assms have t: "t = dropWhile is_word (drop 13 (dropWhile is_space s))"
    by (auto simp: match_constrain_def Let_def split: if_splits)
  have "length t \<le> length (drop 13 (dropWhile is_space s))"
    unfolding t by (rule length_dropWhile_le)
  also have "\<dots> \<le> length (dropWhile is_space s)" by simp
  also have "\<dots> \<le> length s" by (rule length_dropWhile_le)
  finally show ?thesis .
qed

lemma match_here_shorter:
  assumes "match_here s = Some (g, rest)"
  shows "length rest < length s"
proof -
  from assms have p: "prefix CHANNEL_MARK s"
    by (auto simp: match_here_def split: if_splits)
  then have l: "11 \<le> length s"
    by (auto simp: CHANNEL_MARK_def dest: prefix_length_le)
  define s2 where "s2 = dropWhile is_word (drop 11 s)"
  define s3 where "s3 = (case match_recipient s2 of Some (r, t) \<Rightarrow> t | None \<Rightarrow> s2)"
  define s4 where "s4 = (case match_constrain s3 of Some (c, t) \<Rightarrow> t | None \<Rightarrow> s3)"
  from assms have r: "rest = snd (until_channel (drop 11 s4))"
    by (auto simp: match_here_def Let_def s2_def s3_def s4_def
        split: if_splits prod.splits option.splits)
  have "length s2 \<le> length (drop 11 s)"
    unfolding s2_def by (rule length_dropWhile_le)
  moreover have "length s3 \<le> length s2"
    unfolding s3_def by (auto split: option.splits dest: match_recipient_length)
  moreover have "length s4 \<le> length s3"
    unfolding s4_def by (auto split: option.splits dest: match_constrain_length)
  moreover have "length rest \<le> length (drop 11 s4)"
    unfolding r by (rule until_channel_length)
  ultimately show ?thesis using l by simp
qed

text \<open>
  \<open>CHANNEL_PATTERN.finditer(block)\<close>: the matches from left to right. The search tries
  every position in turn; after a match (which is never empty) it goes on where the
  match ended.
\<close>

function finditer :: "string \<Rightarrow> segment list" where
  "finditer s =
     (if s = [] then []
      else (case match_here s of
              Some (g, rest) \<Rightarrow> g # finditer rest
            | None \<Rightarrow> finditer (tl s)))"
  by pat_completeness auto
termination
  by (relation "measure length") (auto dest: match_here_shorter)

text \<open>
  The functions of the Python library that the bridge calls, and the clock. They are not
  code of the bridge, so they are parameters of the model: \<open>json.loads\<close> (\<open>None\<close> when it
  raises), \<open>json.dumps(v, ensure_ascii=False)\<close>, \<open>str\<close> of a value, \<open>hash\<close> of a string,
  \<open>str\<close> of an exception and \<open>int(datetime.now().timestamp())\<close>.
\<close>

record pylib =
  json_loads :: "string \<Rightarrow> json option"
  json_dumps :: "json \<Rightarrow> string"
  py_str :: "json \<Rightarrow> string"
  py_hash :: "string \<Rightarrow> int"
  exc_str :: "py_error \<Rightarrow> string"
  time_now :: int

record tool_call =
  tc_name :: string
  tc_arguments :: json

record parsed =
  final_message :: string
  analysis :: "string list"
  tool_calls :: "tool_call list"
  commentary :: "string list"

definition group_or_empty :: "string option \<Rightarrow> string" where
  "group_or_empty g = (case g of None \<Rightarrow> [] | Some s \<Rightarrow> s)"

text \<open>The body of the loop of \<open>parse_block\<close>, for one match \<open>m\<close>.\<close>

definition parse_match :: "pylib \<Rightarrow> parsed \<Rightarrow> segment \<Rightarrow> parsed" where
  "parse_match lib result m =
     (let channel = strip (seg_channel m);
          recipient = strip (group_or_empty (seg_recipient m));
          constrain = strip (group_or_empty (seg_constrain m));
          content = strip (seg_content m) in
      if channel = ''final'' then
        result\<lparr>final_message := final_message result @ content\<rparr>
      else if channel = ''analysis'' then
        result\<lparr>analysis := analysis result @ [content]\<rparr>
      else if channel = ''commentary'' then
        (if recipient \<noteq> [] then
           (let name = replace ''functions.'' [] recipient;
                args =
                  (if constrain = ''json'' then
                     (if content \<noteq> [] then
                        (case json_loads lib content of
                           Some v \<Rightarrow> v
                         | None \<Rightarrow> JObj [(''raw'', JStr content)])
                      else JObj [])
                   else JObj [(''raw'', JStr content)]) in
            result\<lparr>tool_calls :=
              tool_calls result @ [\<lparr>tc_name = name, tc_arguments = args\<rparr>]\<rparr>)
         else result\<lparr>commentary := commentary result @ [content]\<rparr>)
      else result)"

definition parse_block :: "pylib \<Rightarrow> string \<Rightarrow> parsed" where
  "parse_block lib block =
     foldl (parse_match lib)
       \<lparr>final_message = [], analysis = [], tool_calls = [], commentary = []\<rparr>
       (finditer block)"

section \<open>The formatter\<close>

definition esc :: "string \<Rightarrow> string" where
  "esc s =
     replace [CHR 0x27] ''&apos;''
       (replace [CHR 0x22] ''&quot;''
          (replace ''>'' ''&gt;''
             (replace ''<'' ''&lt;''
                (replace ''&'' ''&amp;'' s))))"

text \<open>\<open>sep.join(parts)\<close>\<close>

fun join :: "string \<Rightarrow> string list \<Rightarrow> string" where
  "join sep [] = []"
| "join sep [p] = p"
| "join sep (p # q # ps) = p @ sep @ join sep (q # ps)"

text \<open>The parts that \<open>tool_calls_to_xml\<close> appends for one argument and for one call.\<close>

definition xml_argument :: "pylib \<Rightarrow> string \<times> json \<Rightarrow> string" where
  "xml_argument lib kv =
     (let k = fst kv;
          v = (if snd kv = JNull then JStr [] else snd kv);
          text = (case v of JStr s \<Rightarrow> s | _ \<Rightarrow> json_dumps lib v) in
      ''<'' @ k @ ''>'' @ esc text @ ''</'' @ k @ ''>'')"

definition xml_parts :: "pylib \<Rightarrow> tool_call \<Rightarrow> string list" where
  "xml_parts lib tc =
     [''<'' @ tc_name tc @ ''>''] @
     (case tc_arguments tc of
        JObj kvs \<Rightarrow> map (xml_argument lib) kvs
      | args \<Rightarrow> [esc (py_str lib args)]) @
     [''</'' @ tc_name tc @ ''>'']"

definition tool_calls_to_xml :: "pylib \<Rightarrow> tool_call list \<Rightarrow> string" where
  "tool_calls_to_xml lib tcs = join [CHR 0x0A] (concat (map (xml_parts lib) tcs))"

text \<open>\<open>str(n)\<close> of an integer that is not negative.\<close>

fun str_nat :: "nat \<Rightarrow> string" where
  "str_nat n =
     (if n < 10 then [''0123456789'' ! n]
      else str_nat (n div 10) @ [''0123456789'' ! (n mod 10)])"

declare str_nat.simps [simp del]

definition call_id :: "pylib \<Rightarrow> nat \<Rightarrow> tool_call \<Rightarrow> string" where
  "call_id lib i tc =
     ''call_'' @ str_nat i @ ''_'' @ str_nat (nat (\<bar>py_hash lib (tc_name tc)\<bar> mod 10000))"

definition openai_call :: "pylib \<Rightarrow> nat \<times> tool_call \<Rightarrow> json" where
  "openai_call lib itc =
     (let i = fst itc; tc = snd itc in
      JObj [(''id'', JStr (call_id lib i tc)),
            (''type'', JStr ''function''),
            (''function'',
              JObj [(''name'', JStr (tc_name tc)),
                    (''arguments'',
                      JStr (case tc_arguments tc of
                              JObj kvs \<Rightarrow> json_dumps lib (JObj kvs)
                            | args \<Rightarrow> py_str lib args))])])"

definition tool_calls_to_openai :: "pylib \<Rightarrow> tool_call list \<Rightarrow> json list" where
  "tool_calls_to_openai lib tcs = map (openai_call lib) (enumerate 0 tcs)"

section \<open>The streaming transformer\<close>

record stream_state =
  harmony_mode :: bool
  buf :: string

text \<open>
  What the transformer writes to the client: an upstream line passed through
  (\<open>line + "\n\n"\<close>), a translated chunk (\<open>"data: " + json.dumps(chunk) + "\n\n"\<close>) or the
  sentinel \<open>"data: [DONE]\n\n"\<close>.
\<close>

datatype client_write = Write_line string | Write_data json | Write_done

definition wire :: "pylib \<Rightarrow> client_write \<Rightarrow> string" where
  "wire lib w =
     (case w of
        Write_line line \<Rightarrow> line @ [CHR 0x0A, CHR 0x0A]
      | Write_data chunk \<Rightarrow> ''data: '' @ json_dumps lib chunk @ [CHR 0x0A, CHR 0x0A]
      | Write_done \<Rightarrow> ''data: [DONE]'' @ [CHR 0x0A, CHR 0x0A])"

definition dict_get :: "(string \<times> json) list \<Rightarrow> string \<Rightarrow> json \<Rightarrow> json" where
  "dict_get kvs k d = (case map_of kvs k of None \<Rightarrow> d | Some v \<Rightarrow> v)"

text \<open>\<open>_make_base_chunk_like(base_chunk)\<close>, for the dictionary \<open>base_chunk\<close>.\<close>

definition make_base_chunk_like :: "pylib \<Rightarrow> (string \<times> json) list \<Rightarrow> json" where
  "make_base_chunk_like lib base_chunk =
     JObj [(''id'', dict_get base_chunk ''id'' (JStr ''chunk'')),
           (''object'', dict_get base_chunk ''object'' (JStr ''chat.completion.chunk'')),
           (''created'', dict_get base_chunk ''created'' (JNum (time_now lib))),
           (''model'', dict_get base_chunk ''model'' (JStr ''gpt-oss'')),
           (''choices'',
             JArr [JObj [(''index'', JNum 0), (''delta'', JObj []),
                         (''finish_reason'', JNull)]])]"

text \<open>
  \<open>out_chunk['choices'][0]['delta'] = delta\<close>. The chunk comes from
  \<open>make_base_chunk_like\<close>, so the first case is the one that applies.
\<close>

definition set_delta :: "json \<Rightarrow> json \<Rightarrow> json" where
  "set_delta out_chunk delta =
     (case out_chunk of
        JObj kvs \<Rightarrow>
          (case map_of kvs ''choices'' of
             Some (JArr (JObj c # cs)) \<Rightarrow>
               JObj (AList.update ''choices''
                       (JArr (JObj (AList.update ''delta'' delta c) # cs)) kvs)
           | _ \<Rightarrow> out_chunk)
      | _ \<Rightarrow> out_chunk)"

text \<open>
  \<open>re.finditer(r'<\|channel\|>', buf)\<close>, the start of every match: the search from left to
  right over the rest \<open>s\<close> of the buffer, which starts at the position \<open>pos\<close>; after a
  match it continues behind the match.
\<close>

fun marker_starts :: "string \<Rightarrow> nat \<Rightarrow> nat list" where
  "marker_starts [] pos = []"
| "marker_starts (c # cs) pos =
     (if prefix CHANNEL_MARK (c # cs) then pos # marker_starts (drop 10 cs) (pos + 11)
      else marker_starts cs (Suc pos))"

text \<open>The body of the loop of \<open>_extract_ready_blocks\<close>: what one block adds to \<open>outputs\<close>.\<close>

definition ready_block :: "pylib \<Rightarrow> bool \<Rightarrow> (string \<times> json) list \<Rightarrow> string \<Rightarrow> json list" where
  "ready_block lib xml_mode base_chunk block =
     (let parsed = parse_block lib block;
          out_chunk = make_base_chunk_like lib base_chunk in
      if tool_calls parsed \<noteq> [] then
        (if xml_mode then
           (let xml = tool_calls_to_xml lib (tool_calls parsed) in
            if strip xml \<noteq> [] then [set_delta out_chunk (JObj [(''content'', JStr xml)])]
            else [])
         else
           (let calls = tool_calls_to_openai lib (tool_calls parsed) in
            if calls \<noteq> [] then [set_delta out_chunk (JObj [(''tool_calls'', JArr calls)])]
            else []))
      else if final_message parsed \<noteq> [] then
        [set_delta out_chunk (JObj [(''content'', JStr (final_message parsed))])]
      else [])"

definition extract_ready_blocks ::
  "pylib \<Rightarrow> bool \<Rightarrow> string \<Rightarrow> (string \<times> json) list \<Rightarrow> json list \<times> string" where
  "extract_ready_blocks lib xml_mode buffer base_chunk =
     (let markers = marker_starts buffer 0 in
      if length markers \<le> 1 then ([], buffer)
      else
        (foldl (\<lambda>outputs i.
                  outputs @ ready_block lib xml_mode base_chunk
                              (slice buffer (markers ! i) (markers ! (i + 1))))
           [] [0..<length markers - 1],
         drop (last markers) buffer))"

definition flush_harmony_buffer :: "pylib \<Rightarrow> bool \<Rightarrow> string \<Rightarrow> json list" where
  "flush_harmony_buffer lib xml_mode buffer =
     (if strip buffer = [] then []
      else
        (let base_chunk = make_base_chunk_like lib [];
             parsed = parse_block lib buffer in
         if tool_calls parsed \<noteq> [] then
           (if xml_mode then
              (let xml = tool_calls_to_xml lib (tool_calls parsed) in
               if strip xml \<noteq> [] then [set_delta base_chunk (JObj [(''content'', JStr xml)])]
               else [])
            else
              (let calls = tool_calls_to_openai lib (tool_calls parsed) in
               if calls \<noteq> [] then [set_delta base_chunk (JObj [(''tool_calls'', JArr calls)])]
               else []))
         else if final_message parsed \<noteq> [] then
           [set_delta base_chunk (JObj [(''content'', JStr (final_message parsed))])]
         else []))"

text \<open>
  The three assignments that read the delta of a decoded chunk:
  \<open>choices = chunk.get('choices') or []\<close>,
  \<open>delta = (choices[0].get('delta') if choices and isinstance(choices[0], dict) else {}) or {}\<close>,
  \<open>content = delta.get('content', '')\<close>.
\<close>

definition chunk_content :: "json \<Rightarrow> py_error + json" where
  "chunk_content chunk =
     (case py_get chunk ''choices'' JNull of
        Inl e \<Rightarrow> Inl e
      | Inr c \<Rightarrow>
          (let choices = (if truthy c then c else JArr []) in
           case (if truthy choices then
                   (case py_item0 choices of
                      Inl e \<Rightarrow> Inl e
                    | Inr (JObj kvs) \<Rightarrow> py_get (JObj kvs) ''delta'' JNull
                    | Inr _ \<Rightarrow> Inr (JObj []))
                 else Inr (JObj [])) of
             Inl e \<Rightarrow> Inl e
           | Inr d \<Rightarrow>
               (let delta = (if truthy d then d else JObj []) in
                py_get delta ''content'' (JStr []))))"

text \<open>How one turn of the loop over the upstream lines ends.\<close>

datatype flow = Continue | Break | Raise py_error

text \<open>
  The loop body from the test on Harmony tokens on, for the stripped line \<open>line\<close>, its
  decoded chunk (a dictionary \<open>base_chunk\<close>, or \<open>chunk.get\<close> has raised) and the content
  of its delta. \<open>st.buf += content\<close> raises when the content is not a string.
\<close>

definition handle_content ::
  "pylib \<Rightarrow> bool \<Rightarrow> stream_state \<Rightarrow> string \<Rightarrow> (string \<times> json) list \<Rightarrow> json \<Rightarrow>
   client_write list \<times> stream_state \<times> flow" where
  "handle_content lib xml_mode st line base_chunk content =
     (case (if truthy content then has_harmony content else Inr False) of
        Inl e \<Rightarrow> ([], st, Raise e)
      | Inr h \<Rightarrow>
          if h \<or> harmony_mode st then
            (let st1 = st\<lparr>harmony_mode := True\<rparr> in
             case (if truthy content then
                     (case content of JStr c \<Rightarrow> Inr (buf st1 @ c) | _ \<Rightarrow> Inl TypeError)
                   else Inr (buf st1)) of
               Inl e \<Rightarrow> ([], st1, Raise e)
             | Inr b \<Rightarrow>
                 (let (out_chunks, rest) = extract_ready_blocks lib xml_mode b base_chunk in
                  (map Write_data out_chunks, st1\<lparr>buf := rest\<rparr>, Continue)))
          else ([Write_line line], st, Continue))"

text \<open>One turn of the loop, for the decoded upstream line \<open>raw_line\<close>.\<close>

definition handle_line ::
  "pylib \<Rightarrow> bool \<Rightarrow> stream_state \<Rightarrow> string \<Rightarrow> client_write list \<times> stream_state \<times> flow" where
  "handle_line lib xml_mode st raw_line =
     (let line = strip raw_line in
      if line = [] then ([], st, Continue)
      else if line = ''data: [DONE]'' then
        (map Write_data (flush_harmony_buffer lib xml_mode (buf st)) @ [Write_done],
         st\<lparr>buf := []\<rparr>, Break)
      else if \<not> prefix ''data: '' line then ([], st, Continue)
      else
        (case json_loads lib (drop 6 line) of
           None \<Rightarrow> ([], st, Continue)
         | Some chunk \<Rightarrow>
             (case chunk of
                JObj base_chunk \<Rightarrow>
                  (case chunk_content chunk of
                     Inl e \<Rightarrow> ([], st, Raise e)
                   | Inr content \<Rightarrow> handle_content lib xml_mode st line base_chunk content)
              | _ \<Rightarrow> ([], st, Raise AttributeError))))"

text \<open>
  What the upstream response yields: a line (its bytes decoded), or an exception raised
  by the connection. The end of the list is the end of the upstream body.
\<close>

datatype upstream = Raw_line string | Upstream_error

text \<open>
  How the loop was left: by \<open>break\<close> after the upstream sentinel, at the end of the
  upstream body, or by an exception (which the transformer logs).
\<close>

datatype outcome = Done_received | Exhausted | Aborted

fun stream_loop ::
  "pylib \<Rightarrow> bool \<Rightarrow> stream_state \<Rightarrow> upstream list \<Rightarrow> client_write list \<times> stream_state \<times> outcome" where
  "stream_loop lib xml_mode st [] = ([], st, Exhausted)"
| "stream_loop lib xml_mode st (Upstream_error # evs) = ([], st, Aborted)"
| "stream_loop lib xml_mode st (Raw_line l # evs) =
     (case handle_line lib xml_mode st l of
        (ws, st1, Continue) \<Rightarrow>
          (let (ws2, st2, oc) = stream_loop lib xml_mode st1 evs in (ws @ ws2, st2, oc))
      | (ws, st1, Break) \<Rightarrow> (ws, st1, Done_received)
      | (ws, st1, Raise e) \<Rightarrow> (ws, st1, Aborted))"

text \<open>\<open>_stream_transform\<close>: the writes to the client, in order, for a client that takes
  every write.\<close>

definition stream_transform ::
  "pylib \<Rightarrow> bool \<Rightarrow> upstream list \<Rightarrow> client_write list \<times> stream_state \<times> outcome" where
  "stream_transform lib xml_mode evs =
     stream_loop lib xml_mode \<lparr>harmony_mode = False, buf = []\<rparr> evs"

section \<open>The transformer of a whole body\<close>

text \<open>
  What \<open>_nonstream_transform\<close> returns: \<open>web.Response(text=...)\<close> with the raw upstream
  text, or \<open>web.json_response(data, status=...)\<close>.
\<close>

datatype response = Text_response string | Json_response json nat

text \<open>
  The second \<open>try\<close> block of \<open>_nonstream_transform\<close>, for the decoded body \<open>data\<close>: the
  body to send, or the exception that the block raises. A dictionary assignment keeps
  the place of a key that is there and appends a new key.
\<close>

definition transform_body :: "pylib \<Rightarrow> bool \<Rightarrow> json \<Rightarrow> py_error + json" where
  "transform_body lib xml_mode data =
     (case py_get data ''choices'' JNull of
        Inl e \<Rightarrow> Inl e
      | Inr c \<Rightarrow>
     (let choices = (if truthy c then c else JArr []) in
      case (if truthy choices then py_item0 choices
            else Inr (JObj [(''index'', JNum 0), (''message'', JObj [])])) of
        Inl e \<Rightarrow> Inl e
      | Inr choice \<Rightarrow>
     (case py_get choice ''message'' JNull of
        Inl e \<Rightarrow> Inl e
      | Inr m \<Rightarrow>
     (let message = (if truthy m then m else JObj []) in
      case py_get message ''content'' JNull of
        Inl e \<Rightarrow> Inl e
      | Inr r \<Rightarrow>
     (let raw = (if truthy r then r else JStr []) in
      case has_harmony raw of
        Inl e \<Rightarrow> Inl e
      | Inr False \<Rightarrow> Inr data
      | Inr True \<Rightarrow>
     (case (raw, message, choice, data) of
        (JStr text, JObj message_items, JObj choice_items, JObj data_items) \<Rightarrow>
          (let parsed = parse_block lib text;
               (message1, choice1) =
                 (if tool_calls parsed \<noteq> [] then
                    (if xml_mode then
                       (AList.delete ''tool_calls''
                          (AList.update ''content''
                             (JStr (tool_calls_to_xml lib (tool_calls parsed))) message_items),
                        AList.update ''finish_reason'' (JStr ''stop'') choice_items)
                     else
                       (AList.update ''tool_calls''
                          (JArr (tool_calls_to_openai lib (tool_calls parsed)))
                          (AList.update ''content'' JNull message_items),
                        AList.update ''finish_reason'' (JStr ''tool_calls'') choice_items))
                  else
                    (AList.update ''content'' (JStr (final_message parsed)) message_items,
                     AList.update ''finish_reason'' (JStr ''stop'') choice_items));
               choice2 = JObj (AList.update ''message'' (JObj message1) choice1) in
           if \<not> truthy choices then
             Inr (JObj (AList.update ''choices'' (JArr [choice2]) data_items))
           else
             (case choices of
                JArr (first # others) \<Rightarrow>
                  Inr (JObj (AList.update ''choices'' (JArr (choice2 # others)) data_items))
              | _ \<Rightarrow> Inl TypeError))
      | _ \<Rightarrow> Inl TypeError))))))"

definition error_body :: "pylib \<Rightarrow> py_error \<Rightarrow> json" where
  "error_body lib e =
     JObj [(''error'', JObj [(''message'', JStr (exc_str lib e)),
                             (''type'', JStr ''proxy_error'')])]"

text \<open>
  \<open>_nonstream_transform\<close>. Of the upstream response it takes what \<open>lm_resp.json()\<close>
  returns (\<open>None\<close> when it raises) and what \<open>lm_resp.text()\<close> returns.
\<close>

definition nonstream_transform :: "pylib \<Rightarrow> bool \<Rightarrow> json option \<Rightarrow> string \<Rightarrow> response" where
  "nonstream_transform lib xml_mode upstream_json upstream_text =
     (case upstream_json of
        None \<Rightarrow> Text_response upstream_text
      | Some data \<Rightarrow>
          (case transform_body lib xml_mode data of
             Inr body \<Rightarrow> Json_response body 200
           | Inl e \<Rightarrow> Json_response (error_body lib e) 500))"

section \<open>A library instance for concrete inputs\<close>

text \<open>
  For the evaluation of the model on a concrete input. The decoder is the table of the
  payloads that occur in the input (any other payload is refused). \<open>dumps\<close> writes a value
  as \<open>json.dumps(v, ensure_ascii=False)\<close> does: \<open>", "\<close> between items, \<open>": "\<close> after a key,
  and in a string a backslash before a quote and a backslash, the short escapes for
  backspace, form feed, newline, carriage return and tab, and \<open>\u00XX\<close> for the other
  code points below 32. The hash of a string, the text of an exception and of a value, and
  the clock are fixed stand-ins: Python's string hash changes from one process to the
  next, and no result below depends on the value of any of the four.
\<close>

definition escape_char :: "char \<Rightarrow> string" where
  "escape_char c =
     (let n = (of_char c :: nat) in
      if n = 34 then [CHR 0x5C, CHR 0x22]
      else if n = 92 then [CHR 0x5C, CHR 0x5C]
      else if n = 10 then [CHR 0x5C, CHR ''n'']
      else if n = 13 then [CHR 0x5C, CHR ''r'']
      else if n = 9 then [CHR 0x5C, CHR ''t'']
      else if n = 8 then [CHR 0x5C, CHR ''b'']
      else if n = 12 then [CHR 0x5C, CHR ''f'']
      else if n < 32 then
        [CHR 0x5C] @ ''u00'' @ [''0123456789abcdef'' ! (n div 16), ''0123456789abcdef'' ! (n mod 16)]
      else [c])"

definition quoted :: "string \<Rightarrow> string" where
  "quoted s = [CHR 0x22] @ concat (map escape_char s) @ [CHR 0x22]"

fun dumps :: "json \<Rightarrow> string" where
  "dumps JNull = ''null''"
| "dumps (JBool b) = (if b then ''true'' else ''false'')"
| "dumps (JNum n) = (if n < 0 then ''-'' @ str_nat (nat (- n)) else str_nat (nat n))"
| "dumps (JStr s) = quoted s"
| "dumps (JArr vs) = ''['' @ join '', '' (map dumps vs) @ '']''"
| "dumps (JObj kvs) =
     ''{'' @ join '', '' (map (\<lambda>kv. quoted (fst kv) @ '': '' @ dumps (snd kv)) kvs) @ ''}''"

definition example_lib :: "(string \<times> json) list \<Rightarrow> pylib" where
  "example_lib table =
     \<lparr>json_loads = map_of table,
      json_dumps = dumps,
      py_str = (\<lambda>v. ''<str>''),
      py_hash = (\<lambda>s. int (length s)),
      exc_str = (\<lambda>e. ''<exception>''),
      time_now = 0\<rparr>"

text \<open>
  An upstream line that carries the content \<open>c\<close> in its delta, the chunk that
  \<open>json.loads\<close> gives for its payload (for a content without quotes, backslashes and
  control characters), and the decoder table for the lines with the contents \<open>cs\<close>.
\<close>

definition delta_chunk :: "string \<Rightarrow> json" where
  "delta_chunk c = JObj [(''choices'', JArr [JObj [(''delta'', JObj [(''content'', JStr c)])]])]"

definition delta_line :: "string \<Rightarrow> string" where
  \<open>delta_line c = ''data: {"choices": [{"delta": {"content": "'' @ c @ ''"}}]}''\<close>

definition delta_table :: "string list \<Rightarrow> (string \<times> json) list" where
  "delta_table cs = map (\<lambda>c. (drop 6 (delta_line c), delta_chunk c)) cs"

section \<open>Notions used in the statements\<close>


text \<open>The tool invocation that \<open>parse_block\<close> records for a match on the commentary
  channel with a recipient.\<close>

definition tool_of :: "pylib \<Rightarrow> segment \<Rightarrow> tool_call" where
  "tool_of lib m =
     \<lparr>tc_name = replace ''functions.'' [] (strip (group_or_empty (seg_recipient m))),
      tc_arguments =
        (if strip (group_or_empty (seg_constrain m)) = ''json'' then
           (if strip (seg_content m) \<noteq> [] then
              (case json_loads lib (strip (seg_content m)) of
                 Some v \<Rightarrow> v
               | None \<Rightarrow> JObj [(''raw'', JStr (strip (seg_content m)))])
            else JObj [])
         else JObj [(''raw'', JStr (strip (seg_content m)))])\<rparr>"




section \<open>Properties of the parser\<close>

declare finditer.simps [simp del]

lemma word_not_space: "is_word c \<Longrightarrow> \<not> is_space c"
  by (auto simp: is_word_def is_space_def Let_def)

lemma strip_no_space: "\<forall>c\<in>set s. \<not> is_space c \<Longrightarrow> strip s = s"
proof -
  assume a: "\<forall>c\<in>set s. \<not> is_space c"
  then have "dropWhile is_space s = s" by (intro dropWhile_id) simp
  moreover from a have "dropWhile is_space (rev s) = rev s" by (intro dropWhile_id) simp
  ultimately show ?thesis by (simp add: strip_def)
qed




lemma match_recipient_group:
  assumes "match_recipient s = Some (r, t)"
  shows "r \<noteq> [] \<and> (\<forall>c\<in>set r. \<not> is_space c \<and> c \<noteq> CHR ''<'')"
  using assms
  by (auto simp: match_recipient_def Let_def split: if_splits dest: set_takeWhileD)

lemma match_constrain_group:
  assumes "match_constrain s = Some (c, t)"
  shows "c \<noteq> [] \<and> (\<forall>x\<in>set c. is_word x)"
  using assms
  by (auto simp: match_constrain_def Let_def split: if_splits dest: set_takeWhileD)

lemma match_here_groups:
  assumes "match_here s = Some (g, rest)"
  shows "seg_channel g \<noteq> [] \<and> (\<forall>c\<in>set (seg_channel g). is_word c)"
    and "seg_recipient g = Some r \<Longrightarrow> r \<noteq> [] \<and> (\<forall>c\<in>set r. \<not> is_space c \<and> c \<noteq> CHR ''<'')"
    and "seg_constrain g = Some k \<Longrightarrow> k \<noteq> [] \<and> (\<forall>x\<in>set k. is_word x)"
proof -
  define s2 where "s2 = dropWhile is_word (drop 11 s)"
  define s3 where "s3 = (case match_recipient s2 of Some (r, t) \<Rightarrow> t | None \<Rightarrow> s2)"
  from assms have ch: "seg_channel g = takeWhile is_word (drop 11 s)" and ne: "seg_channel g \<noteq> []"
    by (auto simp: match_here_def Let_def split: if_splits prod.splits option.splits)
  show "seg_channel g \<noteq> [] \<and> (\<forall>c\<in>set (seg_channel g). is_word c)"
    using ne unfolding ch by (auto dest: set_takeWhileD)
  from assms have "seg_recipient g = Some r \<Longrightarrow> \<exists>t. match_recipient s2 = Some (r, t)"
    by (auto simp: match_here_def Let_def s2_def split: if_splits prod.splits option.splits)
  then show "seg_recipient g = Some r \<Longrightarrow> r \<noteq> [] \<and> (\<forall>c\<in>set r. \<not> is_space c \<and> c \<noteq> CHR ''<'')"
    using match_recipient_group by blast
  from assms have "seg_constrain g = Some k \<Longrightarrow> \<exists>t. match_constrain s3 = Some (k, t)"
    by (auto simp: match_here_def Let_def s2_def s3_def split: if_splits prod.splits option.splits)
  then show "seg_constrain g = Some k \<Longrightarrow> k \<noteq> [] \<and> (\<forall>x\<in>set k. is_word x)"
    using match_constrain_group by blast
qed

lemma finditer_match:
  "g \<in> set (finditer s) \<Longrightarrow> \<exists>t rest. match_here t = Some (g, rest)"
proof (induction s rule: finditer.induct)
  case (1 s)
  show ?case
  proof (cases "s = []")
    case True
    with "1.prems" show ?thesis by (simp add: finditer.simps)
  next
    case False
    show ?thesis
    proof (cases "match_here s")
      case None
      with False "1.prems" have "g \<in> set (finditer (tl s))"
        by (simp add: finditer.simps [of s])
      with "1.IH"(1) False None show ?thesis by blast
    next
      case (Some p)
      obtain h rest where p: "p = (h, rest)" by (cases p)
      with False Some "1.prems" have "g = h \<or> g \<in> set (finditer rest)"
        by (simp add: finditer.simps [of s])
      then show ?thesis
      proof
        assume "g = h"
        with Some p show ?thesis by blast
      next
        assume "g \<in> set (finditer rest)"
        with "1.IH"(2) False Some p show ?thesis by blast
      qed
    qed
  qed
qed

lemma finditer_groups:
  assumes "g \<in> set (finditer s)"
  shows "strip (seg_channel g) = seg_channel g"
    and "strip (group_or_empty (seg_recipient g)) = group_or_empty (seg_recipient g)"
    and "strip (group_or_empty (seg_constrain g)) = group_or_empty (seg_constrain g)"
    and "(group_or_empty (seg_recipient g) \<noteq> []) = (seg_recipient g \<noteq> None)"
    and "(group_or_empty (seg_constrain g) = ''json'') = (seg_constrain g = Some ''json'')"
proof -
  from assms obtain t rest where m: "match_here t = Some (g, rest)"
    using finditer_match by blast
  have "\<forall>c\<in>set (seg_channel g). \<not> is_space c"
    using match_here_groups(1) [OF m] word_not_space by blast
  then show "strip (seg_channel g) = seg_channel g"
    by (rule strip_no_space)
  have "\<forall>c\<in>set (group_or_empty (seg_recipient g)). \<not> is_space c"
    using match_here_groups(2) [OF m]
    by (cases "seg_recipient g") (simp_all add: group_or_empty_def)
  then show "strip (group_or_empty (seg_recipient g)) = group_or_empty (seg_recipient g)"
    by (rule strip_no_space)
  have "\<forall>c\<in>set (group_or_empty (seg_constrain g)). \<not> is_space c"
    using match_here_groups(3) [OF m] word_not_space
    by (cases "seg_constrain g") (auto simp: group_or_empty_def)
  then show "strip (group_or_empty (seg_constrain g)) = group_or_empty (seg_constrain g)"
    by (rule strip_no_space)
  show "(group_or_empty (seg_recipient g) \<noteq> []) = (seg_recipient g \<noteq> None)"
    using match_here_groups(2) [OF m]
    by (cases "seg_recipient g") (simp_all add: group_or_empty_def)
  show "(group_or_empty (seg_constrain g) = ''json'') = (seg_constrain g = Some ''json'')"
    by (cases "seg_constrain g") (simp_all add: group_or_empty_def)
qed

lemma parse_match_final:
  "final_message (parse_match lib acc m) =
     final_message acc @ (if strip (seg_channel m) = ''final'' then strip (seg_content m) else [])"
  by (simp add: parse_match_def Let_def)

lemma foldl_parse_match_final:
  "final_message (foldl (parse_match lib) acc ms) =
     final_message acc @
     concat (map (\<lambda>m. strip (seg_content m)) (filter (\<lambda>m. strip (seg_channel m) = ''final'') ms))"
  by (induction ms arbitrary: acc) (simp_all add: parse_match_final)

lemma parse_match_tools:
  "tool_calls (parse_match lib acc m) =
     tool_calls acc @
     (if strip (seg_channel m) = ''commentary'' \<and> strip (group_or_empty (seg_recipient m)) \<noteq> []
      then [tool_of lib m] else [])"
  by (simp add: parse_match_def tool_of_def Let_def)

lemma foldl_parse_match_tools:
  "tool_calls (foldl (parse_match lib) acc ms) =
     tool_calls acc @
     map (tool_of lib)
       (filter (\<lambda>m. strip (seg_channel m) = ''commentary'' \<and>
                     strip (group_or_empty (seg_recipient m)) \<noteq> []) ms)"
  by (induction ms arbitrary: acc) (simp_all add: parse_match_tools)











lemma strip_empty_spaces:
  assumes "strip s = []"
  shows "\<forall>c\<in>set s. is_space c"
proof -
  define t where "t = dropWhile is_space s"
  from assms have "dropWhile is_space (rev t) = []" by (simp add: strip_def t_def)
  then have a: "\<forall>c\<in>set t. is_space c" by simp
  have "t = []"
  proof (rule ccontr)
    assume "t \<noteq> []"
    then have "\<not> is_space (hd t)" unfolding t_def by (rule hd_dropWhile)
    with a \<open>t \<noteq> []\<close> show False by (cases t) auto
  qed
  then show ?thesis by (simp add: t_def)
qed

lemma match_here_head:
  assumes "match_here s \<noteq> None"
  shows "s \<noteq> [] \<and> hd s = CHR ''<''"
proof -
  from assms have "prefix CHANNEL_MARK s"
    by (auto simp: match_here_def split: if_splits)
  then show ?thesis by (auto simp: CHANNEL_MARK_def prefix_def)
qed

lemma finditer_spaces:
  "\<forall>c\<in>set s. is_space c \<Longrightarrow> finditer s = []"
proof (induction s)
  case Nil
  show ?case by (simp add: finditer.simps)
next
  case (Cons c s)
  then have "is_space c" by simp
  then have "c \<noteq> CHR ''<''" by (auto simp: is_space_def)
  then have "match_here (c # s) = None" using match_here_head [of "c # s"]
    by (cases "match_here (c # s)") auto
  with Cons show ?case by (simp add: finditer.simps [of "c # s"])
qed

text \<open>
  Claim C6, as the code has it. For a block whose segments are all on the final channel,
  the final text is the concatenation of the contents of the segments, each stripped of
  leading and trailing white space; a complete block and the flush at the end of the
  stream emit one chunk with that text as its content, and nothing when the text is
  empty.
\<close>

theorem final_only_block_output:
  assumes "\<forall>g\<in>set (finditer block). seg_channel g = ''final''"
  shows "final_message (parse_block lib block) =
           concat (map (\<lambda>g. strip (seg_content g)) (finditer block)) \<and>
         ready_block lib xml_mode base_chunk block =
           (if concat (map (\<lambda>g. strip (seg_content g)) (finditer block)) = [] then []
            else [set_delta (make_base_chunk_like lib base_chunk)
                    (JObj [(''content'',
                       JStr (concat (map (\<lambda>g. strip (seg_content g)) (finditer block))))])]) \<and>
         flush_harmony_buffer lib xml_mode block =
           (if concat (map (\<lambda>g. strip (seg_content g)) (finditer block)) = [] then []
            else [set_delta (make_base_chunk_like lib [])
                    (JObj [(''content'',
                       JStr (concat (map (\<lambda>g. strip (seg_content g)) (finditer block))))])])"
proof -
  let ?T = "concat (map (\<lambda>g. strip (seg_content g)) (finditer block))"
  have s: "\<forall>g\<in>set (finditer block). strip (seg_channel g) = ''final''"
  proof
    fix g
    assume g: "g \<in> set (finditer block)"
    then have "strip (seg_channel g) = seg_channel g" by (rule finditer_groups(1))
    with assms g show "strip (seg_channel g) = ''final''" by simp
  qed
  then have "filter (\<lambda>m. strip (seg_channel m) = ''final'') (finditer block) = finditer block"
    by (simp add: filter_id_conv)
  then have fm: "final_message (parse_block lib block) = ?T"
    by (simp add: parse_block_def foldl_parse_match_final)
  from s have "filter (\<lambda>m. strip (seg_channel m) = ''commentary'' \<and>
                     strip (group_or_empty (seg_recipient m)) \<noteq> []) (finditer block) = []"
    by (simp add: filter_empty_conv)
  then have tc: "tool_calls (parse_block lib block) = []"
    by (simp add: parse_block_def foldl_parse_match_tools)
  have rb: "ready_block lib xml_mode base_chunk block =
           (if ?T = [] then []
            else [set_delta (make_base_chunk_like lib base_chunk) (JObj [(''content'', JStr ?T)])])"
    by (simp add: ready_block_def Let_def tc fm)
  have "strip block = [] \<Longrightarrow> ?T = []"
    using strip_empty_spaces [of block] finditer_spaces [of block] by simp
  then have fl: "flush_harmony_buffer lib xml_mode block =
           (if ?T = [] then []
            else [set_delta (make_base_chunk_like lib []) (JObj [(''content'', JStr ?T)])])"
    by (auto simp: flush_harmony_buffer_def Let_def tc fm)
  from fm rb fl show ?thesis by simp
qed

lemma trailing_world_segments:
  "finditer ''<|channel|>final<|message|> world'' =
     [\<lparr>seg_channel = ''final'', seg_recipient = None, seg_constrain = None,
       seg_content = '' world''\<rparr>]"
  by code_simp

text \<open>
  The claim as it was stated fails on its own example: the content of the only segment of
  the trailing block is \<open>" world"\<close>, and the flush emits \<open>"world"\<close>.
\<close>

theorem trailing_world_counterexample:
  "finditer ''<|channel|>final<|message|> world'' =
     [\<lparr>seg_channel = ''final'', seg_recipient = None, seg_constrain = None,
       seg_content = '' world''\<rparr>] \<and>
   flush_harmony_buffer (example_lib []) True ''<|channel|>final<|message|> world'' =
     [JObj [(''id'', JStr ''chunk''), (''object'', JStr ''chat.completion.chunk''),
            (''created'', JNum 0), (''model'', JStr ''gpt-oss''),
            (''choices'', JArr [JObj [(''index'', JNum 0),
               (''delta'', JObj [(''content'', JStr ''world'')]),
               (''finish_reason'', JNull)]])]]"
  by code_simp

theorem final_only_block_output_witness:
  "finditer ''<|channel|>final<|message|> world'' =
     [\<lparr>seg_channel = ''final'', seg_recipient = None, seg_constrain = None,
       seg_content = '' world''\<rparr>] \<and>
   final_message (parse_block (example_lib []) ''<|channel|>final<|message|> world'') = ''world'' \<and>
   ready_block (example_lib []) False [] ''<|channel|>final<|message|> world'' =
     [set_delta (make_base_chunk_like (example_lib []) []) (JObj [(''content'', JStr ''world'')])] \<and>
   flush_harmony_buffer (example_lib []) False ''<|channel|>final<|message|> world'' =
     [set_delta (make_base_chunk_like (example_lib []) []) (JObj [(''content'', JStr ''world'')])]"
proof -
  have h: "\<forall>g\<in>set (finditer ''<|channel|>final<|message|> world''). seg_channel g = ''final''"
    by (simp add: trailing_world_segments)
  have w: "strip '' world'' = ''world''" by code_simp
  show ?thesis
    using final_only_block_output [OF h, of "example_lib []" False "[]"]
    by (simp add: trailing_world_segments w)
qed

section \<open>Properties of the streaming transformer\<close>

lemma handle_content_flow:
  assumes "handle_content lib xm st line base content = (ws, st1, fl)"
  shows "Write_done \<notin> set ws \<and> fl \<noteq> Break \<and> (harmony_mode st \<longrightarrow> harmony_mode st1) \<and>
         (harmony_mode st \<longrightarrow> (\<forall>l. Write_line l \<notin> set ws)) \<and>
         (\<forall>e. fl = Raise e \<longrightarrow> ws = [])"
  using assms
  by (auto simp: handle_content_def Let_def split: sum.splits if_splits prod.splits json.splits)

lemma handle_line_flow:
  assumes "handle_line lib xm st l = (ws, st1, fl)"
  shows "(fl = Continue \<longrightarrow> Write_done \<notin> set ws) \<and>
         (fl = Break \<longrightarrow> strip l = ''data: [DONE]'' \<and>
            ws = map Write_data (flush_harmony_buffer lib xm (buf st)) @ [Write_done]) \<and>
         (\<forall>e. fl = Raise e \<longrightarrow> ws = []) \<and>
         (strip l \<noteq> ''data: [DONE]'' \<longrightarrow> fl \<noteq> Break) \<and>
         (harmony_mode st \<longrightarrow> harmony_mode st1) \<and>
         (harmony_mode st \<longrightarrow> (\<forall>l. Write_line l \<notin> set ws))"
proof (cases "strip l = [] \<or> strip l = ''data: [DONE]'' \<or> \<not> prefix ''data: '' (strip l)")
  case True
  with assms show ?thesis
    by (auto simp: handle_line_def Let_def split: if_splits)
next
  case False
  show ?thesis
  proof (cases "json_loads lib (drop 6 (strip l))")
    case None
    with False assms show ?thesis by (auto simp: handle_line_def Let_def)
  next
    case (Some chunk)
    show ?thesis
    proof (cases "\<exists>base. chunk = JObj base")
      case False
      with Some \<open>\<not> (strip l = [] \<or> strip l = ''data: [DONE]'' \<or> \<not> prefix ''data: '' (strip l))\<close> assms
      show ?thesis by (cases chunk) (auto simp: handle_line_def Let_def)
    next
      case True
      then obtain base where b: "chunk = JObj base" by blast
      show ?thesis
      proof (cases "chunk_content chunk")
        case (Inl e)
        with b Some \<open>\<not> (strip l = [] \<or> strip l = ''data: [DONE]'' \<or> \<not> prefix ''data: '' (strip l))\<close> assms
        show ?thesis by (auto simp: handle_line_def Let_def)
      next
        case (Inr content)
        with b Some \<open>\<not> (strip l = [] \<or> strip l = ''data: [DONE]'' \<or> \<not> prefix ''data: '' (strip l))\<close> assms
        have "handle_content lib xm st (strip l) base content = (ws, st1, fl)"
          by (auto simp: handle_line_def Let_def)
        from handle_content_flow [OF this]
          \<open>\<not> (strip l = [] \<or> strip l = ''data: [DONE]'' \<or> \<not> prefix ''data: '' (strip l))\<close>
        show ?thesis by auto
      qed
    qed
  qed
qed

lemma stream_loop_props:
  assumes "stream_loop lib xm st evs = (ws, st', oc)"
  shows "(oc = Done_received \<longrightarrow> (\<exists>ws'. ws = ws' @ [Write_done] \<and> Write_done \<notin> set ws')) \<and>
         (oc \<noteq> Done_received \<longrightarrow> Write_done \<notin> set ws) \<and>
         ((\<forall>l. Raw_line l \<in> set evs \<longrightarrow> strip l \<noteq> ''data: [DONE]'') \<longrightarrow> oc \<noteq> Done_received) \<and>
         (harmony_mode st \<longrightarrow> harmony_mode st' \<and> (\<forall>l. Write_line l \<notin> set ws))"
  using assms
proof (induction evs arbitrary: st ws st' oc)
  case Nil
  then show ?case by auto
next
  case (Cons ev evs)
  show ?case
  proof (cases ev)
    case Upstream_error
    with Cons.prems show ?thesis by auto
  next
    case (Raw_line l)
    obtain ws1 st1 fl where h: "handle_line lib xm st l = (ws1, st1, fl)"
      by (cases "handle_line lib xm st l") auto
    note f = handle_line_flow [OF h]
    show ?thesis
    proof (cases fl)
      case Continue
      obtain ws2 st2 oc2 where r: "stream_loop lib xm st1 evs = (ws2, st2, oc2)"
        by (cases "stream_loop lib xm st1 evs") auto
      from Cons.prems Raw_line h Continue r
      have e: "ws = ws1 @ ws2" "st' = st2" "oc = oc2" by auto
      note ih = Cons.IH [OF r]
      from f Continue have n: "Write_done \<notin> set ws1" by simp
      have 1: "oc = Done_received \<longrightarrow> (\<exists>ws'. ws = ws' @ [Write_done] \<and> Write_done \<notin> set ws')"
      proof
        assume "oc = Done_received"
        with ih e obtain w where "ws2 = w @ [Write_done]" "Write_done \<notin> set w" by auto
        with n e have "ws = (ws1 @ w) @ [Write_done] \<and> Write_done \<notin> set (ws1 @ w)" by simp
        then show "\<exists>ws'. ws = ws' @ [Write_done] \<and> Write_done \<notin> set ws'" by blast
      qed
      have 2: "oc \<noteq> Done_received \<longrightarrow> Write_done \<notin> set ws"
        using ih e n by auto
      have 3: "(\<forall>l. Raw_line l \<in> set (ev # evs) \<longrightarrow> strip l \<noteq> ''data: [DONE]'') \<longrightarrow>
               oc \<noteq> Done_received"
        using ih e by auto
      have 4: "harmony_mode st \<longrightarrow> harmony_mode st' \<and> (\<forall>l. Write_line l \<notin> set ws)"
        using ih e f by auto
      from 1 2 3 4 show ?thesis by blast
    next
      case Break
      from Cons.prems Raw_line h Break
      have e: "ws = ws1" "st' = st1" "oc = Done_received" by auto
      from f Break have w: "ws1 = map Write_data (flush_harmony_buffer lib xm (buf st)) @ [Write_done]"
        and d: "strip l = ''data: [DONE]''" by auto
      have "Write_done \<notin> set (map Write_data (flush_harmony_buffer lib xm (buf st)))" by auto
      with w e have 1: "\<exists>ws'. ws = ws' @ [Write_done] \<and> Write_done \<notin> set ws'" by blast
      have 3: "\<not> (\<forall>l. Raw_line l \<in> set (ev # evs) \<longrightarrow> strip l \<noteq> ''data: [DONE]'')"
        using d Raw_line by auto
      have 4: "harmony_mode st \<longrightarrow> harmony_mode st' \<and> (\<forall>l. Write_line l \<notin> set ws)"
        using e f by auto
      from 1 3 4 e show ?thesis by blast
    next
      case (Raise x)
      from Cons.prems Raw_line h Raise
      have e: "ws = ws1" "st' = st1" "oc = Aborted" by auto
      from f Raise have "ws1 = []" by simp
      with e f show ?thesis by auto
    qed
  qed
qed










lemma has_harmony_str:
  "has_harmony (JStr c) =
     Inr (sublist CHANNEL_MARK c \<or> sublist MESSAGE_MARK c \<or> sublist START_MARK c)"
  by (simp add: has_harmony_def split: bool.splits)

lemma has_harmony_nonempty: "has_harmony (JStr c) = Inr True \<Longrightarrow> c \<noteq> []"
  by (auto simp: has_harmony_def CHANNEL_MARK_def MESSAGE_MARK_def START_MARK_def
      split: bool.splits)

lemma handle_content_token:
  assumes "has_harmony (JStr c) = Inr True"
  shows "harmony_mode (fst (snd (handle_content lib xm st line base (JStr c))))"
  using assms has_harmony_nonempty [OF assms]
  by (simp add: handle_content_def Let_def split: prod.splits)

lemma handle_content_engaged:
  assumes "harmony_mode st"
  shows "handle_content lib xm st line base (JStr c) =
           (map Write_data (fst (extract_ready_blocks lib xm (buf st @ c) base)),
            st\<lparr>harmony_mode := True, buf := snd (extract_ready_blocks lib xm (buf st @ c) base)\<rparr>,
            Continue)"
proof (cases "c = []")
  case True
  with assms show ?thesis
    by (simp add: handle_content_def Let_def split: prod.splits)
next
  case False
  obtain h where "has_harmony (JStr c) = Inr h"
    by (simp add: has_harmony_str)
  with False assms show ?thesis
    by (simp add: handle_content_def Let_def split: prod.splits)
qed

text \<open>
  Claim C7. A fragment that contains one of the three tokens engages the connection.
  Once the connection is engaged, the content of a fragment is appended to the buffer
  and only what \<open>_extract_ready_blocks\<close> finds complete is written; whatever lines
  follow, the connection stays engaged and no line is passed through.
\<close>

theorem engaged_is_permanent:
  "(has_harmony (JStr c) = Inr True \<longrightarrow>
      harmony_mode (fst (snd (handle_content lib xm st line base (JStr c))))) \<and>
   (harmony_mode st \<longrightarrow>
      handle_content lib xm st line base (JStr c) =
        (map Write_data (fst (extract_ready_blocks lib xm (buf st @ c) base)),
         st\<lparr>harmony_mode := True, buf := snd (extract_ready_blocks lib xm (buf st @ c) base)\<rparr>,
         Continue) \<and>
      harmony_mode (fst (snd (stream_loop lib xm st evs))) \<and>
      (\<forall>l. Write_line l \<notin> set (fst (stream_loop lib xm st evs))))"
proof -
  obtain ws st' oc where r: "stream_loop lib xm st evs = (ws, st', oc)"
    by (cases "stream_loop lib xm st evs") auto
  from stream_loop_props [OF r] r
  have "harmony_mode st \<longrightarrow>
      harmony_mode (fst (snd (stream_loop lib xm st evs))) \<and>
      (\<forall>l. Write_line l \<notin> set (fst (stream_loop lib xm st evs)))"
    by simp
  then show ?thesis
    using handle_content_token [of c lib xm st line base]
      handle_content_engaged [of st lib xm line base c]
    by blast
qed

lemma token_then_plain_text:
  "stream_loop (example_lib (delta_table [''lo''])) True
     \<lparr>harmony_mode = True, buf = ''<|channel|>final<|message|>Hel''\<rparr>
     [Raw_line (delta_line ''lo'')] =
     ([], \<lparr>harmony_mode = True, buf = ''<|channel|>final<|message|>Hello''\<rparr>, Exhausted)"
  by code_simp

theorem engaged_is_permanent_witness:
  "has_harmony (JStr ''<|channel|>final<|message|>Hel'') = Inr True \<and>
   harmony_mode (fst (snd (handle_content (example_lib (delta_table [''lo''])) True
      \<lparr>harmony_mode = False, buf = []\<rparr> [] [] (JStr ''<|channel|>final<|message|>Hel'')))) \<and>
   stream_loop (example_lib (delta_table [''lo''])) True
     \<lparr>harmony_mode = True, buf = ''<|channel|>final<|message|>Hel''\<rparr>
     [Raw_line (delta_line ''lo'')] =
     ([], \<lparr>harmony_mode = True, buf = ''<|channel|>final<|message|>Hello''\<rparr>, Exhausted) \<and>
   handle_content (example_lib (delta_table [''lo''])) True
     \<lparr>harmony_mode = True, buf = ''<|channel|>final<|message|>Hel''\<rparr> [] [] (JStr ''lo'') =
     ([], \<lparr>harmony_mode = True, buf = ''<|channel|>final<|message|>Hello''\<rparr>, Continue)"
proof -
  have h: "has_harmony (JStr ''<|channel|>final<|message|>Hel'') = Inr True" by code_simp
  have e: "extract_ready_blocks (example_lib (delta_table [''lo''])) True
             ''<|channel|>final<|message|>Hello'' [] = ([], ''<|channel|>final<|message|>Hello'')"
    by code_simp
  show ?thesis
    using engaged_is_permanent [of "''<|channel|>final<|message|>Hel''"
        "example_lib (delta_table [''lo''])" True "\<lparr>harmony_mode = False, buf = []\<rparr>" "[]" "[]" "[]"]
      engaged_is_permanent [of "''lo''"
        "example_lib (delta_table [''lo''])" True
        "\<lparr>harmony_mode = True, buf = ''<|channel|>final<|message|>Hel''\<rparr>" "[]" "[]"
        "[Raw_line (delta_line ''lo'')]"]
    by (simp add: h e token_then_plain_text del: stream_loop.simps)
qed

section \<open>The blocks of a buffer\<close>













section \<open>Fragments that split a marker\<close>






















section \<open>Failures of the transformer of a whole body\<close>

lemma transform_body_not_dict:
  assumes "\<forall>items. data \<noteq> JObj items"
  shows "transform_body lib xm data = Inl AttributeError"
  using assms by (cases data) (simp_all add: transform_body_def)

text \<open>
  Claim C4, as the code has it. When the upstream body cannot be read as JSON, the raw
  upstream text is returned as it is. When the body has been decoded and transforming it
  raises, the response is the error object \<open>{error: {message, type: proxy_error}}\<close> with
  status 500 (so for every body that is not a dictionary); a decoded body never gives
  back the raw text.
\<close>

theorem nonstream_transform_failures:
  "nonstream_transform lib xm None text = Text_response text \<and>
   (\<forall>e. transform_body lib xm data = Inl e \<longrightarrow>
        nonstream_transform lib xm (Some data) text = Json_response (error_body lib e) 500) \<and>
   ((\<forall>items. data \<noteq> JObj items) \<longrightarrow>
        nonstream_transform lib xm (Some data) text =
          Json_response (error_body lib AttributeError) 500) \<and>
   nonstream_transform lib xm (Some data) text \<noteq> Text_response text"
proof -
  have a: "nonstream_transform lib xm None text = Text_response text"
    by (simp add: nonstream_transform_def)
  have b: "\<forall>e. transform_body lib xm data = Inl e \<longrightarrow>
        nonstream_transform lib xm (Some data) text = Json_response (error_body lib e) 500"
    by (simp add: nonstream_transform_def)
  have c: "(\<forall>items. data \<noteq> JObj items) \<longrightarrow>
        nonstream_transform lib xm (Some data) text =
          Json_response (error_body lib AttributeError) 500"
    using transform_body_not_dict [of data lib xm] by (simp add: nonstream_transform_def)
  have d: "nonstream_transform lib xm (Some data) text \<noteq> Text_response text"
    by (simp add: nonstream_transform_def split: sum.splits)
  from a b c d show ?thesis by blast
qed

lemma list_body:
  "transform_body (example_lib []) True (JArr []) = Inl AttributeError"
  by (simp add: transform_body_def)

theorem nonstream_transform_failures_witness:
  "nonstream_transform (example_lib []) True None ''[]'' = Text_response ''[]'' \<and>
   transform_body (example_lib []) True (JArr []) = Inl AttributeError \<and>
   nonstream_transform (example_lib []) True (Some (JArr [])) ''[]'' =
     Json_response (error_body (example_lib []) AttributeError) 500"
  using nonstream_transform_failures [of "example_lib []" True "''[]''" "JArr []"]
  by (simp add: list_body)

text \<open>
  The claim as it was stated fails: a body that is a JSON list, and a body whose message
  content is a number, make the transformation raise, and the client gets the error
  object with status 500, not the upstream text.
\<close>

theorem transform_exception_counterexample:
  \<open>nonstream_transform (example_lib []) True (Some (JArr [])) ''[]'' =
     Json_response
       (JObj [(''error'', JObj [(''message'', JStr ''<exception>''),
                                (''type'', JStr ''proxy_error'')])]) 500 \<and>
   nonstream_transform (example_lib []) True
     (Some (JObj [(''choices'', JArr [JObj [(''message'', JObj [(''content'', JNum 5)])]])]))
     ''{"choices": [{"message": {"content": 5}}]}'' =
     Json_response
       (JObj [(''error'', JObj [(''message'', JStr ''<exception>''),
                                (''type'', JStr ''proxy_error'')])]) 500\<close>
  by code_simp

section \<open>What reaches the client\<close>

text \<open>
  Claim C5 does not hold on the streaming path. \<open>tool_calls_to_openai\<close> numbers the
  invocations of the list it is given, and \<open>_extract_ready_blocks\<close> gives it the
  invocations of one block at a time: a block holds one channel marker, so every streamed
  invocation has the index 0. Two invocations of the same tool in one response get the
  same identifier (the hash is of the name only), here \<open>call_0_6\<close> twice.
\<close>

theorem streamed_call_ids_repeat:
  "fst (stream_transform
     (example_lib (delta_table
        [''<|channel|>commentary to=functions.search<|message|>cats'',
         ''<|channel|>commentary to=functions.search<|message|>dogs'',
         ''<|channel|>final<|message|>Done'']))
     False
     [Raw_line (delta_line ''<|channel|>commentary to=functions.search<|message|>cats''),
      Raw_line (delta_line ''<|channel|>commentary to=functions.search<|message|>dogs''),
      Raw_line (delta_line ''<|channel|>final<|message|>Done''),
      Raw_line ''data: [DONE]'']) =
   [Write_data (set_delta (make_base_chunk_like (example_lib []) [])
      (JObj [(''tool_calls'', JArr
         [JObj [(''id'', JStr ''call_0_6''), (''type'', JStr ''function''),
                (''function'', JObj [(''name'', JStr ''search''),
                   (''arguments'', JStr (dumps (JObj [(''raw'', JStr ''cats'')])))])]])])),
    Write_data (set_delta (make_base_chunk_like (example_lib []) [])
      (JObj [(''tool_calls'', JArr
         [JObj [(''id'', JStr ''call_0_6''), (''type'', JStr ''function''),
                (''function'', JObj [(''name'', JStr ''search''),
                   (''arguments'', JStr (dumps (JObj [(''raw'', JStr ''dogs'')])))])]])])),
    Write_data (set_delta (make_base_chunk_like (example_lib []) [])
      (JObj [(''content'', JStr ''Done'')])),
    Write_done]"
  by code_simp

text \<open>
  Claim C1 does not hold. \<open>has_harmony\<close> knows three tokens, and the streaming
  transformer tests every fragment on its own: the two halves of a split channel marker
  and a constraint marker are passed through as they came, and what stands between a
  message marker and the next channel marker is written as the final text, with the
  \<open><|end|>\<close> and \<open><|start|>\<close> tokens in it. The bytes of the third and of the fourth write
  contain a complete marker.
\<close>

theorem harmony_markers_reach_client:
  "fst (stream_transform
     (example_lib (delta_table
        [''<|chan'', ''nel|>'', ''<|constrain|>json'',
         ''<|channel|>final<|message|>Hello<|end|><|start|>assistant'',
         ''<|channel|>final<|message|>bye'']))
     True
     [Raw_line (delta_line ''<|chan''),
      Raw_line (delta_line ''nel|>''),
      Raw_line (delta_line ''<|constrain|>json''),
      Raw_line (delta_line ''<|channel|>final<|message|>Hello<|end|><|start|>assistant''),
      Raw_line (delta_line ''<|channel|>final<|message|>bye''),
      Raw_line ''data: [DONE]'']) =
   [Write_line (delta_line ''<|chan''),
    Write_line (delta_line ''nel|>''),
    Write_line (delta_line ''<|constrain|>json''),
    Write_data (set_delta (make_base_chunk_like (example_lib []) [])
      (JObj [(''content'', JStr ''Hello<|end|><|start|>assistant'')])),
    Write_data (set_delta (make_base_chunk_like (example_lib []) [])
      (JObj [(''content'', JStr ''bye'')])),
    Write_done] \<and>
   sublist CONSTRAIN_MARK (wire (example_lib []) (Write_line (delta_line ''<|constrain|>json''))) \<and>
   sublist START_MARK
     (wire (example_lib [])
        (Write_data (set_delta (make_base_chunk_like (example_lib []) [])
           (JObj [(''content'', JStr ''Hello<|end|><|start|>assistant'')]))))"
  by code_simp

end
